theory Spec2Isabelle
  imports Main "HOL-Library.AList"
begin

section \<open>Python values used by the policy code\<close>

text \<open>
  Exceptions the modelled code can raise. \<open>AssertionError\<close> is a failed \<^verbatim>\<open>assert\<close>,
  \<open>KeyError\<close> a failed \<^verbatim>\<open>mapping[key]\<close>, \<open>IndexError\<close> a failed \<^verbatim>\<open>list[0]\<close>.
  \<open>RuntimeError\<close> stands for whatever a network's own \<^verbatim>\<open>load_state_dict\<close> raises.
\<close>

datatype error = AssertionError | KeyError | IndexError | RuntimeError

text \<open>\<^verbatim>\<open>StepKeyType = Union[str, int]\<close> and the named tuple \<^verbatim>\<open>ActorID(step_key, agent_id)\<close>.\<close>

datatype StepKeyType = IntKey int | StrKey string

datatype ActorID = ActorID (step_key: StepKeyType) (agent_id: int)

text \<open>
  A key of the network registry is a step key (shared network) or a full actor id
  (separate networks per agent). A Python int or str never equals a tuple, so the two
  kinds of key are disjoint.
\<close>

datatype network_key = StepNet StepKeyType | ActorNet ActorID

text \<open>
  A Python \<^verbatim>\<open>dict\<close> is the list of its items in insertion order; its keys are distinct.
  \<open>dict_of\<close> is the constructor \<^verbatim>\<open>dict(pairs)\<close>: items are inserted from left to right,
  a repeated key overwrites the value and keeps the position of its first insertion.
\<close>

type_synonym ('k, 'v) dict = "('k \<times> 'v) list"

definition dict_setitem :: "('k, 'v) dict \<Rightarrow> 'k \<Rightarrow> 'v \<Rightarrow> ('k, 'v) dict" where
  "dict_setitem d k v = AList.update k v d"

definition dict_of :: "('k \<times> 'v) list \<Rightarrow> ('k, 'v) dict" where
  "dict_of kvs = foldl (\<lambda>d (k, v). dict_setitem d k v) [] kvs"

definition keys :: "('k, 'v) dict \<Rightarrow> 'k list" where
  "keys d = map fst d"

definition dict_values :: "('k, 'v) dict \<Rightarrow> 'v list" where
  "dict_values d = map snd d"

definition getitem :: "('k, 'v) dict \<Rightarrow> 'k \<Rightarrow> error + 'v" where
  "getitem d k = (case map_of d k of None \<Rightarrow> Inl KeyError | Some v \<Rightarrow> Inr v)"

section \<open>PolicySubStepOutput and PolicyOutput\<close>

record ('ten, 'dist) PolicySubStepOutput =
  action_logits :: "(string, 'ten) dict"
  prob_dist :: 'dist
  embedding_logits :: "(string, 'ten) dict option"
  actor_id :: "ActorID option"

text \<open>\<^verbatim>\<open>PolicyOutput\<close> wraps the list \<^verbatim>\<open>_step_policy_outputs\<close>.\<close>

type_synonym ('ten, 'dist) PolicyOutput = "('ten, 'dist) PolicySubStepOutput list"

definition po_append ::
  "('ten, 'dist) PolicyOutput \<Rightarrow> ('ten, 'dist) PolicySubStepOutput \<Rightarrow> ('ten, 'dist) PolicyOutput" where
  "po_append po v = po @ [v]"

definition actor_ids :: "('ten, 'dist) PolicyOutput \<Rightarrow> ActorID option list" where
  "actor_ids po = map (\<lambda>x. actor_id x) po"

definition po_prob_dist :: "('ten, 'dist) PolicyOutput \<Rightarrow> 'dist list" where
  "po_prob_dist po = map (\<lambda>x. prob_dist x) po"

section \<open>TorchPolicy\<close>

text \<open>
  The distribution mapper is an external collaborator: the policy reads the key set of its
  action space and calls its \<^verbatim>\<open>logits_dict_to_distribution\<close>.
\<close>

record ('ten, 'temp, 'dist) DistributionMapper =
  action_space_keys :: "string list"
  logits_dict_to_distribution :: "(string, 'ten) dict \<Rightarrow> 'temp \<Rightarrow> 'dist"

record ('net, 'ten, 'temp, 'dist) TorchPolicy =
  networks :: "(network_key, 'net) dict"
  distribution_mapper :: "('ten, 'temp, 'dist) DistributionMapper"
  substeps_with_separate_agent_nets :: "StepKeyType set"
  device :: string

text \<open>\<^verbatim>\<open>TorchPolicy.network_for\<close>.\<close>

definition network_for ::
  "('net, 'ten, 'temp, 'dist) TorchPolicy \<Rightarrow> ActorID option \<Rightarrow> error + 'net" where
  "network_for p aid =
     (case aid of
        None \<Rightarrow>
          if length (networks p) = 1
          then (case dict_values (networks p) of [] \<Rightarrow> Inl IndexError | n # _ \<Rightarrow> Inr n)
          else Inl AssertionError
      | Some a \<Rightarrow>
          let network_key =
                (if step_key a \<in> substeps_with_separate_agent_nets p
                 then ActorNet a else StepNet (step_key a))
          in getitem (networks p) network_key)"

text \<open>
  The networks are \<^verbatim>\<open>torch.nn.Module\<close> objects and the observation conversion is a utility
  of the perception package: both are external. A definition that uses them takes
  \<open>convert_to_torch\<close> (observation to tensors, on the policy's device) and \<open>call\<close> (the
  forward pass of a network, returning its output dictionary) as parameters.

  The test \<^verbatim>\<open>any([key not in ...spaces.keys() for key in network_out.keys()])\<close>:
\<close>

definition any_key_outside :: "string list \<Rightarrow> (string, 'ten) dict \<Rightarrow> bool" where
  "any_key_outside space_keys network_out =
     list_ex (\<lambda>b. b) (map (\<lambda>key. key \<notin> set space_keys) (keys network_out))"

text \<open>\<^verbatim>\<open>TorchPolicy.compute_substep_policy_output\<close>.\<close>

definition compute_substep_policy_output ::
  "(string \<Rightarrow> 'obs \<Rightarrow> 'tobs) \<Rightarrow> ('net \<Rightarrow> 'tobs \<Rightarrow> (string, 'ten) dict) \<Rightarrow>
   ('net, 'ten, 'temp, 'dist) TorchPolicy \<Rightarrow> 'obs \<Rightarrow> ActorID option \<Rightarrow> 'temp \<Rightarrow>
   error + ('ten, 'dist) PolicySubStepOutput" where
  "compute_substep_policy_output convert_to_torch call p observation aid temperature =
     (let obs_t = convert_to_torch (device p) observation in
      case network_for p aid of
        Inl e \<Rightarrow> Inl e
      | Inr net \<Rightarrow>
          let network_out = call net obs_t;
              space_keys = action_space_keys (distribution_mapper p);
              (action_logits', embedding_logits') =
                (if any_key_outside space_keys network_out
                 then (dict_of (filter (\<lambda>ii. fst ii \<in> set space_keys) network_out),
                       Some (dict_of (filter (\<lambda>ii. fst ii \<notin> set space_keys) network_out)))
                 else (network_out, None));
              prob_dist' =
                logits_dict_to_distribution (distribution_mapper p) action_logits' temperature
          in Inr \<lparr>action_logits = action_logits', prob_dist = prob_dist',
                  embedding_logits = embedding_logits', actor_id = aid\<rparr>)"

text \<open>\<^verbatim>\<open>TorchPolicy.compute_logits_dict\<close>.\<close>

definition compute_logits_dict ::
  "(string \<Rightarrow> 'obs \<Rightarrow> 'tobs) \<Rightarrow> ('net \<Rightarrow> 'tobs \<Rightarrow> (string, 'ten) dict) \<Rightarrow>
   ('net, 'ten, 'temp, 'dist) TorchPolicy \<Rightarrow> 'obs \<Rightarrow> ActorID option \<Rightarrow> bool \<Rightarrow>
   error + ((string, 'ten) dict \<times> (string, 'ten) dict option)" where
  "compute_logits_dict convert_to_torch call p observation aid return_embedding =
     (let obs_t = convert_to_torch (device p) observation in
      case network_for p aid of
        Inl e \<Rightarrow> Inl e
      | Inr net \<Rightarrow>
          let network_out = call net obs_t;
              space_keys = action_space_keys (distribution_mapper p)
          in (case (if return_embedding
                    then
                      let embedding_out =
                            dict_of (filter (\<lambda>ii. fst ii \<notin> set space_keys) network_out)
                      in if length embedding_out > 0 then Inr (Some embedding_out)
                         else Inl AssertionError
                    else Inr None) of
                Inl e \<Rightarrow> Inl e
              | Inr embedding_out \<Rightarrow>
                  let network_out' =
                        (if any_key_outside space_keys network_out
                         then dict_of (filter (\<lambda>ii. fst ii \<in> set space_keys) network_out)
                         else network_out)
                  in Inr (network_out', embedding_out)))"

text \<open>
  The structured spaces record is consumed, not owned: of each sub-step record the policy
  reads the observation and the actor id.
\<close>

record 'obs SpacesRecord =
  observation :: 'obs
  sr_actor_id :: "ActorID option"

record 'obs StructuredSpacesRecord =
  substep_records :: "'obs SpacesRecord list"

text \<open>
  \<^verbatim>\<open>TorchPolicy.compute_policy_output\<close>: the loop over \<^verbatim>\<open>record.substep_records\<close>, with the
  \<^verbatim>\<open>PolicyOutput\<close> built so far as accumulator. An exception of a sub-step leaves the loop.
\<close>

fun policy_output_loop ::
  "(string \<Rightarrow> 'obs \<Rightarrow> 'tobs) \<Rightarrow> ('net \<Rightarrow> 'tobs \<Rightarrow> (string, 'ten) dict) \<Rightarrow>
   ('net, 'ten, 'temp, 'dist) TorchPolicy \<Rightarrow> 'temp \<Rightarrow> ('ten, 'dist) PolicyOutput \<Rightarrow>
   'obs SpacesRecord list \<Rightarrow> error + ('ten, 'dist) PolicyOutput" where
  "policy_output_loop convert_to_torch call p temperature structured_policy_output [] =
     Inr structured_policy_output"
| "policy_output_loop convert_to_torch call p temperature structured_policy_output
       (substep_record # rest) =
     (case compute_substep_policy_output convert_to_torch call p
             (observation substep_record) (sr_actor_id substep_record) temperature of
        Inl e \<Rightarrow> Inl e
      | Inr out \<Rightarrow>
          policy_output_loop convert_to_torch call p temperature
            (po_append structured_policy_output out) rest)"

definition compute_policy_output ::
  "(string \<Rightarrow> 'obs \<Rightarrow> 'tobs) \<Rightarrow> ('net \<Rightarrow> 'tobs \<Rightarrow> (string, 'ten) dict) \<Rightarrow>
   ('net, 'ten, 'temp, 'dist) TorchPolicy \<Rightarrow> 'obs StructuredSpacesRecord \<Rightarrow> 'temp \<Rightarrow>
   error + ('ten, 'dist) PolicyOutput" where
  "compute_policy_output convert_to_torch call p record' temperature =
     policy_output_loop convert_to_torch call p temperature [] (substep_records record')"

text \<open>
  \<^verbatim>\<open>TorchPolicy.compute_action_log_probs\<close>; \<open>log_prob\<close> is the method of the external
  distribution class.
\<close>

definition compute_action_log_probs ::
  "('dist \<Rightarrow> 'act \<Rightarrow> 'lp) \<Rightarrow> ('ten, 'dist) PolicyOutput \<Rightarrow> 'act list \<Rightarrow> error + 'lp list" where
  "compute_action_log_probs log_prob policy_output actions =
     (if length (po_prob_dist policy_output) = length actions
      then Inr (map (\<lambda>(pb, ac). log_prob pb ac) (zip (po_prob_dist policy_output) actions))
      else Inl AssertionError)"

text \<open>
  \<^verbatim>\<open>TorchPolicy.state_dict\<close>; \<open>module_state_dict\<close> is \<^verbatim>\<open>nn.Module.state_dict\<close>. The result
  is \<^verbatim>\<open>dict(policies=state_dict_policies)\<close>.
\<close>

definition state_dict ::
  "('net \<Rightarrow> 'sd) \<Rightarrow> ('net, 'ten, 'temp, 'dist) TorchPolicy \<Rightarrow>
   (string, (network_key, 'sd) dict) dict" where
  "state_dict module_state_dict p =
     (let state_dict_policies =
            foldl (\<lambda>d (key, policy). dict_setitem d key (module_state_dict policy)) []
              (networks p)
      in dict_of [(''policies'', state_dict_policies)])"

text \<open>
  \<^verbatim>\<open>TorchPolicy.load_state_dict\<close>; \<open>module_load_state_dict\<close> is \<^verbatim>\<open>nn.Module.load_state_dict\<close>,
  which changes the network it is called on and may raise. The loop returns the registry
  with every network loaded; an exception leaves the loop, and the model then returns the
  exception alone (the networks loaded before it are not reported).
\<close>

fun load_loop ::
  "('net \<Rightarrow> 'sd \<Rightarrow> error + 'net) \<Rightarrow> (network_key, 'sd) dict \<Rightarrow>
   (network_key, 'net) dict \<Rightarrow> error + (network_key, 'net) dict" where
  "load_loop module_load_state_dict state_dict_policies [] = Inr []"
| "load_loop module_load_state_dict state_dict_policies ((key, policy) # rest) =
     (if key \<notin> set (keys state_dict_policies) then Inl AssertionError
      else case getitem state_dict_policies key of
             Inl e \<Rightarrow> Inl e
           | Inr s \<Rightarrow>
               (case module_load_state_dict policy s of
                  Inl e \<Rightarrow> Inl e
                | Inr policy' \<Rightarrow>
                    (case load_loop module_load_state_dict state_dict_policies rest of
                       Inl e \<Rightarrow> Inl e
                     | Inr rest' \<Rightarrow> Inr ((key, policy') # rest'))))"

definition load_state_dict ::
  "('net \<Rightarrow> 'sd \<Rightarrow> error + 'net) \<Rightarrow> ('net, 'ten, 'temp, 'dist) TorchPolicy \<Rightarrow>
   (string, (network_key, 'sd) dict) dict \<Rightarrow> error + ('net, 'ten, 'temp, 'dist) TorchPolicy" where
  "load_state_dict module_load_state_dict p state_dict' =
     (if ''policies'' \<in> set (keys state_dict')
      then case getitem state_dict' ''policies'' of
             Inl e \<Rightarrow> Inl e
           | Inr state_dict_policies \<Rightarrow>
               (case load_loop module_load_state_dict state_dict_policies (networks p) of
                  Inl e \<Rightarrow> Inl e
                | Inr networks' \<Rightarrow> Inr (p\<lparr>networks := networks'\<rparr>))
      else Inr p)"

section \<open>DummyStructuredCoreEnvironment\<close>

text \<open>
  The environment context (with its step counter and event service), the reward aggregator
  and the observation space are external. The state keeps them as opaque values:
  \<open>env_context\<close> stands for the context together with the events the aggregator has
  collected, \<open>observation_space\<close> for the space together with its random generator.
  The definitions take as parameters \<open>increment_env_step\<close> (of the context),
  \<open>summarize_reward\<close> (of the aggregator) and \<open>sample\<close> (of the space).
\<close>

record ('ctx, 'space) DummyStructuredCoreEnvironment =
  env_context :: 'ctx
  observation_space :: 'space
  current_agent :: int

definition init ::
  "'ctx \<Rightarrow> 'space \<Rightarrow> ('ctx, 'space) DummyStructuredCoreEnvironment" where
  "init ctx space = \<lparr>env_context = ctx, observation_space = space, current_agent = 0\<rparr>"

definition get_maze_state ::
  "('space \<Rightarrow> 'obs \<times> 'space) \<Rightarrow> ('ctx, 'space) DummyStructuredCoreEnvironment \<Rightarrow>
   'obs \<times> ('ctx, 'space) DummyStructuredCoreEnvironment" where
  "get_maze_state sample env =
     (let (obs, space') = sample (observation_space env)
      in (obs, env\<lparr>observation_space := space'\<rparr>))"

text \<open>
  \<^verbatim>\<open>step\<close> returns the tuple (observation, reward, done, info) and the new state; the info
  dictionary is always empty and is left out. The maze action is not read.
\<close>

definition step ::
  "('ctx \<Rightarrow> 'ctx) \<Rightarrow> ('ctx \<Rightarrow> 'r::zero) \<Rightarrow> ('space \<Rightarrow> 'obs \<times> 'space) \<Rightarrow>
   ('ctx, 'space) DummyStructuredCoreEnvironment \<Rightarrow> 'act \<Rightarrow>
   ('obs \<times> 'r \<times> bool) \<times> ('ctx, 'space) DummyStructuredCoreEnvironment" where
  "step increment_env_step summarize_reward sample env maze_action =
     (if current_agent env = 0
      then
        let env1 = env\<lparr>current_agent := 1\<rparr>;
            (obs, env2) = get_maze_state sample env1
        in ((obs, 0, False), env2)
      else
        let env1 = env\<lparr>current_agent := 0\<rparr>;
            env2 = env1\<lparr>env_context := increment_env_step (env_context env1)\<rparr>;
            (obs, env3) = get_maze_state sample env2
        in ((obs, summarize_reward (env_context env3), False), env3))"

definition reset ::
  "('space \<Rightarrow> 'obs \<times> 'space) \<Rightarrow> ('ctx, 'space) DummyStructuredCoreEnvironment \<Rightarrow>
   'obs \<times> ('ctx, 'space) DummyStructuredCoreEnvironment" where
  "reset sample env = get_maze_state sample (env\<lparr>current_agent := 0\<rparr>)"

definition env_actor_id :: "('ctx, 'space) DummyStructuredCoreEnvironment \<Rightarrow> int \<times> int" where
  "env_actor_id env = (0, current_agent env)"

text \<open>The calls a user of the environment can make, and a run of them from a fresh object.\<close>

datatype 'act env_call = Reset | Step 'act

fun run ::
  "('ctx \<Rightarrow> 'ctx) \<Rightarrow> ('ctx \<Rightarrow> 'r::zero) \<Rightarrow> ('space \<Rightarrow> 'obs \<times> 'space) \<Rightarrow>
   ('ctx, 'space) DummyStructuredCoreEnvironment \<Rightarrow> 'act env_call list \<Rightarrow>
   ('ctx, 'space) DummyStructuredCoreEnvironment" where
  "run increment_env_step summarize_reward sample env [] = env"
| "run increment_env_step summarize_reward sample env (Reset # cs) =
     run increment_env_step summarize_reward sample (snd (reset sample env)) cs"
| "run increment_env_step summarize_reward sample env (Step a # cs) =
     run increment_env_step summarize_reward sample
       (snd (step increment_env_step summarize_reward sample env a)) cs"

section \<open>An example configuration\<close>

text \<open>
  The scenario of the specification: sub-step 0 has one shared network, sub-step 1 has a
  separate network for each of its two agents. Networks are identified by a number, a
  distribution is the pair of the logits and the temperature it was built from.
\<close>

definition example_mapper :: "(int, nat, (string, int) dict \<times> nat) DistributionMapper" where
  "example_mapper =
     \<lparr>action_space_keys = [''move'', ''turn''],
      logits_dict_to_distribution = (\<lambda>logits temperature. (logits, temperature))\<rparr>"

definition example_policy :: "(nat, int, nat, (string, int) dict \<times> nat) TorchPolicy" where
  "example_policy =
     \<lparr>networks = [(StepNet (IntKey 0), 10), (ActorNet (ActorID (IntKey 1) 0), 20),
                  (ActorNet (ActorID (IntKey 1) 1), 30)],
      distribution_mapper = example_mapper,
      substeps_with_separate_agent_nets = {IntKey 1},
      device = ''cpu''\<rparr>"

definition example_convert :: "string \<Rightarrow> int \<Rightarrow> int" where
  "example_convert dev obs = obs"

definition example_call :: "nat \<Rightarrow> int \<Rightarrow> (string, int) dict" where
  "example_call net obs_t =
     (if net = 10 then [(''move'', int net + obs_t), (''turn'', obs_t)]
      else [(''latent'', 7), (''move'', int net + obs_t), (''turn'', obs_t)])"

text \<open>
  A record of one environment step with two sub-steps, the policy output the example policy
  computes for it at temperature 1, and a stand-in for the log-probability of an action.
\<close>

definition example_record :: "int StructuredSpacesRecord" where
  "example_record =
     \<lparr>substep_records =
        [\<lparr>observation = 5, sr_actor_id = Some (ActorID (IntKey 0) 0)\<rparr>,
         \<lparr>observation = 5, sr_actor_id = Some (ActorID (IntKey 1) 0)\<rparr>]\<rparr>"

definition example_output :: "(int, (string, int) dict \<times> nat) PolicyOutput" where
  "example_output =
     [\<lparr>action_logits = [(''move'', 15), (''turn'', 5)],
       prob_dist = ([(''move'', 15), (''turn'', 5)], 1),
       embedding_logits = None,
       actor_id = Some (ActorID (IntKey 0) 0)\<rparr>,
      \<lparr>action_logits = [(''move'', 25), (''turn'', 5)],
       prob_dist = ([(''move'', 25), (''turn'', 5)], 1),
       embedding_logits = Some [(''latent'', 7)],
       actor_id = Some (ActorID (IntKey 1) 0)\<rparr>]"

definition example_log_prob :: "(string, int) dict \<times> nat \<Rightarrow> int \<Rightarrow> int" where
  "example_log_prob dist action = sum_list (map snd (fst dist)) - action"

text \<open>
  The state of an example network is its number: saving returns it, loading replaces it.
\<close>

definition example_module_state_dict :: "nat \<Rightarrow> nat" where
  "example_module_state_dict net = net"

definition example_module_load_state_dict :: "nat \<Rightarrow> nat \<Rightarrow> error + nat" where
  "example_module_load_state_dict net s = Inr s"

text \<open>
  For the dummy environment: the context is its step counter, the observation space a
  counter that is sampled and advanced, the reward ten times the step counter.
\<close>

definition example_sample :: "nat \<Rightarrow> int \<times> nat" where
  "example_sample space = (int space, space + 1)"

definition example_summarize_reward :: "nat \<Rightarrow> int" where
  "example_summarize_reward ctx = 10 * int ctx"

section \<open>Dictionaries\<close>

lemma update_fresh: "k \<notin> fst ` set d \<Longrightarrow> AList.update k v d = d @ [(k, v)]"
  by (induction d) auto

lemma foldl_setitem_distinct:
  "distinct (map fst acc @ map fst xs) \<Longrightarrow>
   foldl (\<lambda>d (k, x). dict_setitem d k (f x)) acc xs = acc @ map (\<lambda>(k, x). (k, f x)) xs"
proof (induction xs arbitrary: acc)
  case Nil
  then show ?case by simp
next
  case (Cons kx xs)
  obtain k x where kx: "kx = (k, x)" by (cases kx)
  from Cons.prems have fresh: "k \<notin> fst ` set acc"
    by (auto simp: kx)
  have step: "dict_setitem acc k (f x) = acc @ [(k, f x)]"
    unfolding dict_setitem_def by (rule update_fresh [OF fresh])
  from Cons.prems have "distinct (map fst (acc @ [(k, f x)]) @ map fst xs)"
    by (auto simp: kx)
  from Cons.IH [OF this]
  have "foldl (\<lambda>d (k, x). dict_setitem d k (f x)) (acc @ [(k, f x)]) xs =
        (acc @ [(k, f x)]) @ map (\<lambda>(k, x). (k, f x)) xs" .
  then show ?case
    unfolding kx by (simp only: foldl.simps prod.case step list.map append_assoc append.simps)
qed

lemma dict_of_distinct: "distinct (map fst kvs) \<Longrightarrow> dict_of kvs = kvs"
  using foldl_setitem_distinct [of "[]" kvs "\<lambda>v. v"]
  by (simp add: dict_of_def)

lemma dict_of_filter:
  "distinct (map fst d) \<Longrightarrow> dict_of (filter P d) = filter P d"
  by (rule dict_of_distinct) (simp add: distinct_map_filter)

lemma setitem_not_Nil: "dict_setitem d k v \<noteq> []"
  by (simp add: dict_setitem_def)

lemma foldl_setitem_not_Nil:
  "acc \<noteq> [] \<Longrightarrow> foldl (\<lambda>d (k, v). dict_setitem d k v) acc kvs \<noteq> []"
proof (induction kvs arbitrary: acc)
  case Nil
  then show ?case by simp
next
  case (Cons kv kvs)
  obtain k v where kv: "kv = (k, v)" by (cases kv)
  have "foldl (\<lambda>d (k, v). dict_setitem d k v) (dict_setitem acc k v) kvs \<noteq> []"
    by (rule Cons.IH) (rule setitem_not_Nil)
  then show ?case
    unfolding kv by (simp only: foldl.simps prod.case not_False_eq_True)
qed

lemma dict_of_eq_Nil: "dict_of kvs = [] \<longleftrightarrow> kvs = []"
proof (cases kvs)
  case Nil
  then show ?thesis by (simp add: dict_of_def)
next
  case (Cons kv rest)
  obtain k v where kv: "kv = (k, v)" by (cases kv)
  have "foldl (\<lambda>d (k, v). dict_setitem d k v) (dict_setitem [] k v) rest \<noteq> []"
    by (rule foldl_setitem_not_Nil) (rule setitem_not_Nil)
  then have "dict_of kvs \<noteq> []"
    unfolding dict_of_def Cons kv by (simp only: foldl.simps prod.case not_False_eq_True)
  then show ?thesis using Cons by simp
qed

lemma any_key_outside_iff:
  "any_key_outside ks d \<longleftrightarrow> \<not> set (keys d) \<subseteq> set ks"
  by (auto simp: any_key_outside_def list_ex_iff)

section \<open>Network registry and addressing\<close>

text \<open>
  Claim C3. For an actor id \<open>a\<close>, \<open>network_for\<close> looks the network up under the full
  actor id when the step key of \<open>a\<close> is in the set of sub-steps with separate agent
  networks, and under the step key alone otherwise; a key that is not registered raises
  \<open>KeyError\<close>. With separate networks for step key 1 only, the actor ids (1, 0) and (1, 1)
  resolve to the networks registered under two different keys, and every actor id with step
  key 0 resolves to the one network registered under key 0.
\<close>

theorem network_for_actor_id:
  "network_for p (Some a) =
     (case map_of (networks p)
             (if step_key a \<in> substeps_with_separate_agent_nets p
              then ActorNet a else StepNet (step_key a)) of
        None \<Rightarrow> Inl KeyError
      | Some n \<Rightarrow> Inr n)
   \<and> (substeps_with_separate_agent_nets p = {IntKey 1} \<and>
      map_of (networks p) (StepNet (IntKey 0)) = Some n0 \<and>
      map_of (networks p) (ActorNet (ActorID (IntKey 1) 0)) = Some n10 \<and>
      map_of (networks p) (ActorNet (ActorID (IntKey 1) 1)) = Some n11 \<longrightarrow>
        network_for p (Some (ActorID (IntKey 1) 0)) = Inr n10 \<and>
        network_for p (Some (ActorID (IntKey 1) 1)) = Inr n11 \<and>
        ActorNet (ActorID (IntKey 1) 0) \<noteq> ActorNet (ActorID (IntKey 1) 1) \<and>
        (\<forall>i. network_for p (Some (ActorID (IntKey 0) i)) = Inr n0))"
  by (simp add: network_for_def getitem_def)

theorem network_for_actor_id_witness:
  "network_for example_policy (Some (ActorID (IntKey 1) 0)) = Inr 20
   \<and> network_for example_policy (Some (ActorID (IntKey 1) 1)) = Inr 30
   \<and> network_for example_policy (Some (ActorID (IntKey 0) 7)) = Inr 10
   \<and> network_for example_policy (Some (ActorID (IntKey 2) 0)) = Inl KeyError"
  using network_for_actor_id [of example_policy "ActorID (IntKey 2) 0" 10 20 30]
  by (simp add: example_policy_def)

text \<open>
  Claim C4. Without an actor id, \<open>network_for\<close> returns a network if and only if exactly one
  network is registered, and then it returns that network; with no network or with more
  than one it raises \<open>AssertionError\<close>.
\<close>

theorem network_for_None:
  "((\<exists>n. network_for p None = Inr n) \<longleftrightarrow> length (networks p) = 1)
   \<and> (length (networks p) \<noteq> 1 \<longrightarrow> network_for p None = Inl AssertionError)
   \<and> (\<forall>k n. networks p = [(k, n)] \<longrightarrow> network_for p None = Inr n)"
  by (cases "networks p") (auto simp: network_for_def dict_values_def)

theorem network_for_None_witness:
  "network_for (example_policy\<lparr>networks := [(StepNet (IntKey 0), 10)]\<rparr>) None = Inr 10
   \<and> network_for example_policy None = Inl AssertionError
   \<and> network_for (example_policy\<lparr>networks := []\<rparr>) None = Inl AssertionError"
  using network_for_None [of "example_policy\<lparr>networks := [(StepNet (IntKey 0), 10)]\<rparr>"]
    network_for_None [of example_policy]
    network_for_None [of "example_policy\<lparr>networks := []\<rparr>"]
  by (simp add: example_policy_def)

section \<open>Logits partitioning\<close>

lemma substep_output_eq:
  assumes net: "network_for p aid = Inr net"
    and d: "d = call net (convert_to_torch (device p) obs)"
    and K: "K = set (action_space_keys (distribution_mapper p))"
    and dist: "distinct (keys d)"
  shows "compute_substep_policy_output convert_to_torch call p obs aid temperature =
     Inr (if set (keys d) \<subseteq> K
          then \<lparr>action_logits = d,
                prob_dist = logits_dict_to_distribution (distribution_mapper p) d temperature,
                embedding_logits = None, actor_id = aid\<rparr>
          else \<lparr>action_logits = filter (\<lambda>ii. fst ii \<in> K) d,
                prob_dist = logits_dict_to_distribution (distribution_mapper p)
                              (filter (\<lambda>ii. fst ii \<in> K) d) temperature,
                embedding_logits = Some (filter (\<lambda>ii. fst ii \<notin> K) d), actor_id = aid\<rparr>)"
proof -
  have dd: "distinct (map fst d)" using dist by (simp add: keys_def)
  show ?thesis
    unfolding compute_substep_policy_output_def Let_def net sum.case d [symmetric] K [symmetric]
      any_key_outside_iff dict_of_filter [OF dd]
    by simp
qed

lemma filter_outside_not_Nil:
  "\<not> set (keys d) \<subseteq> K \<Longrightarrow> filter (\<lambda>ii. fst ii \<notin> K) d \<noteq> []"
  by (auto simp: keys_def filter_empty_conv)

lemma map_of_filter_restrict:
  "map_of (filter (\<lambda>ii. fst ii \<in> K) d) = map_of d |` K"
  by (induction d) (auto simp: restrict_map_def fun_eq_iff)

lemma filter_inside_id:
  "set (keys d) \<subseteq> K \<Longrightarrow> filter (\<lambda>ii. fst ii \<in> K) d = d"
  by (rule filter_True) (auto simp: keys_def)

lemma filter_outside_Nil:
  "set (keys d) \<subseteq> K \<Longrightarrow> filter (\<lambda>ii. fst ii \<notin> K) d = []"
  by (auto simp: keys_def filter_empty_conv)

lemma logits_dict_eq:
  assumes net: "network_for p aid = Inr net"
    and d: "d = call net (convert_to_torch (device p) obs)"
    and K: "K = set (action_space_keys (distribution_mapper p))"
    and dist: "distinct (keys d)"
  shows "compute_logits_dict convert_to_torch call p obs aid return_embedding =
     (if return_embedding \<and> set (keys d) \<subseteq> K then Inl AssertionError
      else Inr (filter (\<lambda>ii. fst ii \<in> K) d,
                if return_embedding then Some (filter (\<lambda>ii. fst ii \<notin> K) d) else None))"
proof -
  have dd: "distinct (map fst d)" using dist by (simp add: keys_def)
  have unf: "compute_logits_dict convert_to_torch call p obs aid return_embedding =
     (case (if return_embedding
            then if length (filter (\<lambda>ii. fst ii \<notin> K) d) > 0
                 then Inr (Some (filter (\<lambda>ii. fst ii \<notin> K) d))
                 else Inl AssertionError
            else Inr None) of
        Inl e \<Rightarrow> Inl e
      | Inr embedding_out \<Rightarrow>
          Inr (if \<not> set (keys d) \<subseteq> K then filter (\<lambda>ii. fst ii \<in> K) d else d,
               embedding_out))"
    unfolding compute_logits_dict_def Let_def net sum.case d [symmetric] K [symmetric]
      any_key_outside_iff dict_of_filter [OF dd]
    by (rule refl)
  show ?thesis
  proof (cases "set (keys d) \<subseteq> K")
    case True
    show ?thesis
      unfolding unf using True
      by (simp add: filter_inside_id [OF True] filter_outside_Nil [OF True])
  next
    case False
    show ?thesis
      unfolding unf using False filter_outside_not_Nil [OF False]
      by simp
  qed
qed

lemma example_network_for:
  "network_for example_policy (Some (ActorID (IntKey 0) 0)) = Inr 10"
  "network_for example_policy (Some (ActorID (IntKey 1) 0)) = Inr 20"
  "network_for example_policy (Some (ActorID (IntKey 1) 1)) = Inr 30"
  by (simp_all add: network_for_def example_policy_def getitem_def)

lemma example_K:
  "set (action_space_keys (distribution_mapper example_policy)) = {''move'', ''turn''}"
  by (simp add: example_policy_def example_mapper_def)

lemma example_out:
  "example_call 10 (example_convert (device example_policy) 5) = [(''move'', 15), (''turn'', 5)]"
  "example_call 20 (example_convert (device example_policy) 5) =
     [(''latent'', 7), (''move'', 25), (''turn'', 5)]"
  by (simp_all add: example_call_def example_convert_def)

lemma psubset_witness: "A \<subseteq> B \<Longrightarrow> x \<in> B \<Longrightarrow> x \<notin> A \<Longrightarrow> A \<subset> B"
  by blast

lemma example_keys:
  "keys [(''latent'', 7::int), (''move'', 25), (''turn'', 5)] = [''latent'', ''move'', ''turn'']"
  "keys [(''move'', 15::int), (''turn'', 5)] = [''move'', ''turn'']"
  by (simp_all add: keys_def)

text \<open>
  Claim C2. Let \<open>d\<close> be the output dictionary of the network that \<open>network_for\<close> selects
  and \<open>K\<close> the key set of the action space. When the keys of \<open>d\<close> are a strict superset of
  \<open>K\<close>, \<open>compute_substep_policy_output\<close> returns action logits equal to \<open>d\<close> restricted to
  \<open>K\<close> and a non-empty dictionary of embedding logits holding the other entries. When the
  keys of \<open>d\<close> are exactly \<open>K\<close>, the action logits are \<open>d\<close> itself, the embedding logits
  are \<open>None\<close>, and nothing is raised.
\<close>

theorem substep_logits_partition:
  assumes "network_for p aid = Inr net"
    and "d = call net (convert_to_torch (device p) obs)"
    and "K = set (action_space_keys (distribution_mapper p))"
    and "distinct (keys d)"
  shows "(K \<subset> set (keys d) \<longrightarrow>
            (\<exists>out emb. compute_substep_policy_output convert_to_torch call p obs aid temperature
                         = Inr out
               \<and> action_logits out = filter (\<lambda>ii. fst ii \<in> K) d
               \<and> map_of (action_logits out) = map_of d |` K
               \<and> embedding_logits out = Some emb \<and> emb \<noteq> []
               \<and> emb = filter (\<lambda>ii. fst ii \<notin> K) d))
       \<and> (set (keys d) = K \<longrightarrow>
            (\<exists>out. compute_substep_policy_output convert_to_torch call p obs aid temperature
                         = Inr out
               \<and> action_logits out = d \<and> embedding_logits out = None))"
proof (intro conjI impI)
  assume sup: "K \<subset> set (keys d)"
  then have ns: "\<not> set (keys d) \<subseteq> K" by auto
  show "\<exists>out emb. compute_substep_policy_output convert_to_torch call p obs aid temperature
                         = Inr out
               \<and> action_logits out = filter (\<lambda>ii. fst ii \<in> K) d
               \<and> map_of (action_logits out) = map_of d |` K
               \<and> embedding_logits out = Some emb \<and> emb \<noteq> []
               \<and> emb = filter (\<lambda>ii. fst ii \<notin> K) d"
    using substep_output_eq [where call = call and convert_to_torch = convert_to_torch
        and temperature = temperature, OF assms] ns filter_outside_not_Nil [OF ns]
    by (simp add: map_of_filter_restrict)
next
  assume "set (keys d) = K"
  then have "set (keys d) \<subseteq> K" by simp
  then show "\<exists>out. compute_substep_policy_output convert_to_torch call p obs aid temperature
                         = Inr out
               \<and> action_logits out = d \<and> embedding_logits out = None"
    using substep_output_eq [where call = call and convert_to_torch = convert_to_torch
        and temperature = temperature, OF assms] by simp
qed

theorem substep_logits_partition_witness:
  "(\<exists>out. compute_substep_policy_output example_convert example_call example_policy 5
             (Some (ActorID (IntKey 1) 0)) (1::nat) = Inr out
          \<and> action_logits out = [(''move'', 25), (''turn'', 5)]
          \<and> embedding_logits out = Some [(''latent'', 7)])
   \<and> (\<exists>out. compute_substep_policy_output example_convert example_call example_policy 5
             (Some (ActorID (IntKey 0) 0)) (1::nat) = Inr out
          \<and> action_logits out = [(''move'', 15), (''turn'', 5)]
          \<and> embedding_logits out = None)"
proof -
  have d1: "[(''latent'', 7), (''move'', 25), (''turn'', 5)] =
            example_call 20 (example_convert (device example_policy) 5)"
    by (simp add: example_out)
  have d0: "[(''move'', 15), (''turn'', 5)] =
            example_call 10 (example_convert (device example_policy) 5)"
    by (simp add: example_out)
  have K: "{''move'', ''turn''} = set (action_space_keys (distribution_mapper example_policy))"
    by (simp add: example_K)
  have dist1: "distinct (keys [(''latent'', 7::int), (''move'', 25), (''turn'', 5)])"
    by (simp add: example_keys)
  have dist0: "distinct (keys [(''move'', 15::int), (''turn'', 5)])"
    by (simp add: example_keys)
  have nmem: "''latent'' \<notin> {''move'', ''turn''}"
    by simp
  have mem: "''latent'' \<in> set (keys [(''latent'', 7::int), (''move'', 25), (''turn'', 5)])"
    unfolding example_keys by simp
  have sub: "{''move'', ''turn''} \<subseteq> set (keys [(''latent'', 7::int), (''move'', 25), (''turn'', 5)])"
    unfolding example_keys by simp
  have sup: "{''move'', ''turn''} \<subset> set (keys [(''latent'', 7::int), (''move'', 25), (''turn'', 5)])"
    by (rule psubset_witness [OF sub mem nmem])
  have eq: "set (keys [(''move'', 15::int), (''turn'', 5)]) = {''move'', ''turn''}"
    by (simp add: example_keys)
  from substep_logits_partition [where call = example_call and convert_to_torch = example_convert
      and temperature = 1, OF example_network_for(2) d1 K dist1] sup
  have a: "\<exists>out. compute_substep_policy_output example_convert example_call example_policy 5
             (Some (ActorID (IntKey 1) 0)) (1::nat) = Inr out
          \<and> action_logits out = [(''move'', 25), (''turn'', 5)]
          \<and> embedding_logits out = Some [(''latent'', 7)]"
    by simp blast
  from substep_logits_partition [where call = example_call and convert_to_torch = example_convert
      and temperature = 1, OF example_network_for(1) d0 K dist0] eq
  have b: "\<exists>out. compute_substep_policy_output example_convert example_call example_policy 5
             (Some (ActorID (IntKey 0) 0)) (1::nat) = Inr out
          \<and> action_logits out = [(''move'', 15), (''turn'', 5)]
          \<and> embedding_logits out = None"
    by simp
  from a b show ?thesis by (rule conjI)
qed

text \<open>
  Claim C5. With \<open>return_embedding = True\<close>, \<open>compute_logits_dict\<close> raises \<open>AssertionError\<close>
  whenever the network output has no key outside the action space; when it has one, the
  call returns, and its second component is the non-empty dictionary of the entries whose
  keys are outside the action space.
\<close>

theorem logits_dict_embedding_requested:
  assumes "network_for p aid = Inr net"
    and "d = call net (convert_to_torch (device p) obs)"
    and "K = set (action_space_keys (distribution_mapper p))"
    and "distinct (keys d)"
  shows "(set (keys d) \<subseteq> K \<longrightarrow>
            compute_logits_dict convert_to_torch call p obs aid True = Inl AssertionError)
       \<and> (\<not> set (keys d) \<subseteq> K \<longrightarrow>
            (\<exists>logits emb. compute_logits_dict convert_to_torch call p obs aid True
                             = Inr (logits, Some emb)
               \<and> emb \<noteq> [] \<and> emb = filter (\<lambda>ii. fst ii \<notin> K) d))"
proof (intro conjI impI)
  assume "set (keys d) \<subseteq> K"
  then show "compute_logits_dict convert_to_torch call p obs aid True = Inl AssertionError"
    using logits_dict_eq [where call = call and convert_to_torch = convert_to_torch
        and return_embedding = True, OF assms]
    by simp
next
  assume ns: "\<not> set (keys d) \<subseteq> K"
  then show "\<exists>logits emb. compute_logits_dict convert_to_torch call p obs aid True
                             = Inr (logits, Some emb)
               \<and> emb \<noteq> [] \<and> emb = filter (\<lambda>ii. fst ii \<notin> K) d"
    using logits_dict_eq [where call = call and convert_to_torch = convert_to_torch
        and return_embedding = True, OF assms] filter_outside_not_Nil [OF ns]
    by simp
qed

theorem logits_dict_embedding_requested_witness:
  "compute_logits_dict example_convert example_call example_policy 5
     (Some (ActorID (IntKey 0) 0)) True = Inl AssertionError
   \<and> compute_logits_dict example_convert example_call example_policy 5
     (Some (ActorID (IntKey 1) 0)) True =
       Inr ([(''move'', 25), (''turn'', 5)], Some [(''latent'', 7)])"
proof -
  have d1: "[(''latent'', 7), (''move'', 25), (''turn'', 5)] =
            example_call 20 (example_convert (device example_policy) 5)"
    by (simp add: example_out)
  have d0: "[(''move'', 15), (''turn'', 5)] =
            example_call 10 (example_convert (device example_policy) 5)"
    by (simp add: example_out)
  have K: "{''move'', ''turn''} = set (action_space_keys (distribution_mapper example_policy))"
    by (simp add: example_K)
  have dist1: "distinct (keys [(''latent'', 7::int), (''move'', 25), (''turn'', 5)])"
    by (simp add: example_keys)
  have dist0: "distinct (keys [(''move'', 15::int), (''turn'', 5)])"
    by (simp add: example_keys)
  have sub: "set (keys [(''move'', 15::int), (''turn'', 5)]) \<subseteq> {''move'', ''turn''}"
    by (simp add: example_keys)
  have nsub: "\<not> set (keys [(''latent'', 7::int), (''move'', 25), (''turn'', 5)])
                \<subseteq> {''move'', ''turn''}"
    by (simp add: example_keys)
  from logits_dict_embedding_requested [where call = example_call
      and convert_to_torch = example_convert, OF example_network_for(1) d0 K dist0] sub
  have a: "compute_logits_dict example_convert example_call example_policy 5
     (Some (ActorID (IntKey 0) 0)) True = Inl AssertionError"
    by simp
  from logits_dict_embedding_requested [where call = example_call
      and convert_to_torch = example_convert, OF example_network_for(2) d1 K dist1] nsub
  have b: "compute_logits_dict example_convert example_call example_policy 5
     (Some (ActorID (IntKey 1) 0)) True =
       Inr ([(''move'', 25), (''turn'', 5)], Some [(''latent'', 7)])"
    by (simp add: logits_dict_eq [where call = example_call
      and convert_to_torch = example_convert, OF example_network_for(2) d1 K dist1])
  from a b show ?thesis by (rule conjI)
qed

text \<open>
  Claim C9. With \<open>return_embedding = False\<close>, \<open>compute_logits_dict\<close> returns \<open>None\<close> as its
  second component, whatever keys the network emits, and the returned logits are the
  network output without the entries whose keys are outside the action space.
\<close>

theorem logits_dict_embedding_not_requested:
  assumes "network_for p aid = Inr net"
    and "d = call net (convert_to_torch (device p) obs)"
    and "K = set (action_space_keys (distribution_mapper p))"
    and "distinct (keys d)"
  shows "\<exists>logits. compute_logits_dict convert_to_torch call p obs aid False = Inr (logits, None)
           \<and> logits = filter (\<lambda>ii. fst ii \<in> K) d
           \<and> set (keys logits) = set (keys d) \<inter> K
           \<and> map_of logits = map_of d |` K"
proof -
  have "set (keys (filter (\<lambda>ii. fst ii \<in> K) d)) = set (keys d) \<inter> K"
    by (auto simp: keys_def)
  then show ?thesis
    using logits_dict_eq [where call = call and convert_to_torch = convert_to_torch
        and return_embedding = False, OF assms]
    by (simp add: map_of_filter_restrict)
qed

theorem logits_dict_embedding_not_requested_witness:
  "compute_logits_dict example_convert example_call example_policy 5
     (Some (ActorID (IntKey 1) 0)) False = Inr ([(''move'', 25), (''turn'', 5)], None)"
proof -
  have d1: "[(''latent'', 7), (''move'', 25), (''turn'', 5)] =
            example_call 20 (example_convert (device example_policy) 5)"
    by (simp add: example_out)
  have K: "{''move'', ''turn''} = set (action_space_keys (distribution_mapper example_policy))"
    by (simp add: example_K)
  have dist1: "distinct (keys [(''latent'', 7::int), (''move'', 25), (''turn'', 5)])"
    by (simp add: example_keys)
  from logits_dict_embedding_not_requested [where call = example_call
      and convert_to_torch = example_convert, OF example_network_for(2) d1 K dist1]
  show ?thesis
    by simp
qed

section \<open>Evaluation of a full step\<close>

lemma substep_actor_id:
  "compute_substep_policy_output convert_to_torch call p obs aid temperature = Inr out \<Longrightarrow>
   actor_id out = aid"
  by (auto simp: compute_substep_policy_output_def Let_def split: sum.splits if_splits)

lemma policy_output_loop_Inr:
  "policy_output_loop convert_to_torch call p temperature acc recs = Inr out \<longleftrightarrow>
   (\<exists>outs. out = acc @ outs \<and>
      list_all2 (\<lambda>sr o'. compute_substep_policy_output convert_to_torch call p
                   (observation sr) (sr_actor_id sr) temperature = Inr o') recs outs)"
proof (induction recs arbitrary: acc)
  case Nil
  then show ?case by auto
next
  case (Cons sr recs)
  show ?case
  proof (cases "compute_substep_policy_output convert_to_torch call p
                   (observation sr) (sr_actor_id sr) temperature")
    case (Inl e)
    then show ?thesis by (simp add: list_all2_Cons1)
  next
    case (Inr o1)
    then show ?thesis
      by (simp add: Cons.IH po_append_def list_all2_Cons1) blast
  qed
qed

lemma example_substep:
  "compute_substep_policy_output example_convert example_call example_policy 5
     (Some (ActorID (IntKey 0) 0)) (1::nat) = Inr (example_output ! 0)"
  "compute_substep_policy_output example_convert example_call example_policy 5
     (Some (ActorID (IntKey 1) 0)) (1::nat) = Inr (example_output ! 1)"
proof -
  have d1: "[(''latent'', 7), (''move'', 25), (''turn'', 5)] =
            example_call 20 (example_convert (device example_policy) 5)"
    by (simp add: example_out)
  have d0: "[(''move'', 15), (''turn'', 5)] =
            example_call 10 (example_convert (device example_policy) 5)"
    by (simp add: example_out)
  have K: "{''move'', ''turn''} = set (action_space_keys (distribution_mapper example_policy))"
    by (simp add: example_K)
  have dist1: "distinct (keys [(''latent'', 7::int), (''move'', 25), (''turn'', 5)])"
    by (simp add: example_keys)
  have dist0: "distinct (keys [(''move'', 15::int), (''turn'', 5)])"
    by (simp add: example_keys)
  show "compute_substep_policy_output example_convert example_call example_policy 5
     (Some (ActorID (IntKey 0) 0)) (1::nat) = Inr (example_output ! 0)"
    unfolding substep_output_eq [where call = example_call and convert_to_torch = example_convert,
        OF example_network_for(1) d0 K dist0]
    by (simp add: example_keys example_output_def example_policy_def example_mapper_def)
  show "compute_substep_policy_output example_convert example_call example_policy 5
     (Some (ActorID (IntKey 1) 0)) (1::nat) = Inr (example_output ! 1)"
    unfolding substep_output_eq [where call = example_call and convert_to_torch = example_convert,
        OF example_network_for(2) d1 K dist1]
    by (simp add: example_keys example_output_def example_policy_def example_mapper_def)
qed

text \<open>
  Claim C1. For a record with \<open>k\<close> sub-step entries, \<open>compute_policy_output\<close> returns the
  policy output \<open>out\<close> exactly when \<open>out\<close> has \<open>k\<close> elements and its \<open>i\<close>-th element is what
  \<open>compute_substep_policy_output\<close> returns for the \<open>i\<close>-th entry, in the order of the
  record; then \<open>actor_ids\<close> has length \<open>k\<close> and its \<open>i\<close>-th element is the actor id of the
  \<open>i\<close>-th entry. The call returns if and only if the evaluation of every sub-step returns:
  an exception of a sub-step (a network that is not registered) leaves the call.
\<close>

theorem compute_policy_output_substeps:
  "(compute_policy_output convert_to_torch call p r temperature = Inr out \<longleftrightarrow>
      length out = length (substep_records r) \<and>
      (\<forall>i < length (substep_records r).
         compute_substep_policy_output convert_to_torch call p
           (observation (substep_records r ! i)) (sr_actor_id (substep_records r ! i))
           temperature = Inr (out ! i)))
   \<and> (compute_policy_output convert_to_torch call p r temperature = Inr out \<longrightarrow>
        length (actor_ids out) = length (substep_records r) \<and>
        (\<forall>i < length (substep_records r).
           actor_ids out ! i = sr_actor_id (substep_records r ! i)))"
proof -
  have iff: "compute_policy_output convert_to_torch call p r temperature = Inr out \<longleftrightarrow>
      length out = length (substep_records r) \<and>
      (\<forall>i < length (substep_records r).
         compute_substep_policy_output convert_to_torch call p
           (observation (substep_records r ! i)) (sr_actor_id (substep_records r ! i))
           temperature = Inr (out ! i))"
    unfolding compute_policy_output_def policy_output_loop_Inr
    by (auto simp: list_all2_conv_all_nth)
  have ids: "length (actor_ids out) = length (substep_records r) \<and>
        (\<forall>i < length (substep_records r).
           actor_ids out ! i = sr_actor_id (substep_records r ! i))"
    if "compute_policy_output convert_to_torch call p r temperature = Inr out"
  proof -
    from that iff have len: "length out = length (substep_records r)"
      and sub: "\<And>i. i < length (substep_records r) \<Longrightarrow>
         compute_substep_policy_output convert_to_torch call p
           (observation (substep_records r ! i)) (sr_actor_id (substep_records r ! i))
           temperature = Inr (out ! i)"
      by blast+
    show ?thesis
      using len substep_actor_id [OF sub] by (simp add: actor_ids_def)
  qed
  from iff ids show ?thesis by blast
qed

theorem compute_policy_output_substeps_witness:
  "compute_policy_output example_convert example_call example_policy example_record (1::nat)
     = Inr example_output
   \<and> actor_ids example_output = [Some (ActorID (IntKey 0) 0), Some (ActorID (IntKey 1) 0)]"
proof -
  have len: "length example_output = length (substep_records example_record)"
    by (simp add: example_output_def example_record_def)
  have sub: "\<forall>i < length (substep_records example_record).
         compute_substep_policy_output example_convert example_call example_policy
           (observation (substep_records example_record ! i))
           (sr_actor_id (substep_records example_record ! i)) (1::nat)
         = Inr (example_output ! i)"
  proof (intro allI impI)
    fix i assume "i < length (substep_records example_record)"
    then have "i = 0 \<or> i = 1"
      by (auto simp: example_record_def)
    then show "compute_substep_policy_output example_convert example_call example_policy
           (observation (substep_records example_record ! i))
           (sr_actor_id (substep_records example_record ! i)) (1::nat)
         = Inr (example_output ! i)"
      using example_substep by (auto simp: example_record_def)
  qed
  from compute_policy_output_substeps [of example_convert example_call example_policy
      example_record 1 example_output] len sub
  have "compute_policy_output example_convert example_call example_policy example_record (1::nat)
     = Inr example_output"
    by blast
  moreover have "actor_ids example_output =
      [Some (ActorID (IntKey 0) 0), Some (ActorID (IntKey 1) 0)]"
    by (simp add: actor_ids_def example_output_def)
  ultimately show ?thesis by (rule conjI)
qed

section \<open>Log-probabilities of actions\<close>

text \<open>
  Claim C6. \<open>compute_action_log_probs\<close> raises \<open>AssertionError\<close> when the policy output and
  the list of actions differ in length. Otherwise it returns a list of that length whose
  \<open>i\<close>-th element is the log-probability of the \<open>i\<close>-th action under the distribution of
  the \<open>i\<close>-th sub-step output. The function reads its arguments only.
\<close>

theorem compute_action_log_probs_zip:
  "(length policy_output \<noteq> length actions \<longrightarrow>
      compute_action_log_probs log_prob policy_output actions = Inl AssertionError)
   \<and> (length policy_output = length actions \<longrightarrow>
        (\<exists>r. compute_action_log_probs log_prob policy_output actions = Inr r
           \<and> length r = length actions
           \<and> (\<forall>i < length actions. r ! i = log_prob (prob_dist (policy_output ! i)) (actions ! i))))"
  by (simp add: compute_action_log_probs_def po_prob_dist_def)

theorem compute_action_log_probs_zip_witness:
  "compute_action_log_probs example_log_prob example_output [3, 4] = Inr [17, 26]
   \<and> compute_action_log_probs example_log_prob example_output [3] = Inl AssertionError"
proof -
  have l2: "length example_output = length [3::int, 4]"
    by (simp add: example_output_def)
  have l1: "length example_output \<noteq> length [3::int]"
    by (simp add: example_output_def)
  from compute_action_log_probs_zip [of example_output "[3]" example_log_prob] l1
  have a: "compute_action_log_probs example_log_prob example_output [3] = Inl AssertionError"
    by blast
  from compute_action_log_probs_zip [of example_output "[3, 4]" example_log_prob] l2
  obtain r where r: "compute_action_log_probs example_log_prob example_output [3, 4] = Inr r"
    and len: "length r = length [3::int, 4]"
    and nth: "\<forall>i < length [3::int, 4].
                r ! i = example_log_prob (prob_dist (example_output ! i)) ([3, 4] ! i)"
    by blast
  from nth have "r ! 0 = 17" "r ! 1 = 26"
    by (simp_all add: example_output_def example_log_prob_def)
  with len have "r = [17, 26]"
    by (cases r; cases "tl r") auto
  with r a show ?thesis by simp
qed

section \<open>Saving and loading the networks\<close>

lemma getitem_member:
  "k \<in> set (keys d) \<Longrightarrow> \<exists>v. getitem d k = Inr v \<and> map_of d k = Some v"
  by (cases "map_of d k") (auto simp: getitem_def keys_def map_of_eq_None_iff)

lemma getitem_Inr_iff: "getitem d k = Inr v \<longleftrightarrow> map_of d k = Some v"
  by (simp add: getitem_def split: option.splits)

lemma load_loop_missing:
  "k \<in> set (keys nets) \<Longrightarrow> k \<notin> set (keys sdp) \<Longrightarrow>
   \<exists>e. load_loop mload sdp nets = Inl e"
proof (induction nets)
  case Nil
  then show ?case by (simp add: keys_def)
next
  case (Cons kn nets)
  obtain k' n where kn: "kn = (k', n)" by (cases kn)
  show ?case
  proof (cases "k' = k")
    case True
    with Cons.prems show ?thesis by (simp add: kn)
  next
    case False
    with Cons.prems have "k \<in> set (keys nets)" by (simp add: kn keys_def)
    from Cons.IH [OF this Cons.prems(2)] obtain e where "load_loop mload sdp nets = Inl e" ..
    then show ?thesis
      by (simp add: kn split: sum.splits)
  qed
qed

lemma load_loop_present:
  "\<forall>(k, n) \<in> set nets. \<exists>s n'. map_of sdp k = Some s \<and> mload n s = Inr n' \<Longrightarrow>
   \<exists>nets'. load_loop mload sdp nets = Inr nets'"
proof (induction nets)
  case Nil
  then show ?case by simp
next
  case (Cons kn nets)
  obtain k n where kn: "kn = (k, n)" by (cases kn)
  from Cons.prems obtain s n' where s: "map_of sdp k = Some s" and l: "mload n s = Inr n'"
    by (auto simp: kn)
  from s have mem: "k \<in> set (keys sdp)"
    by (auto simp: keys_def dest: map_of_SomeD intro: rev_image_eqI)
  from s have g: "getitem sdp k = Inr s" by (simp add: getitem_Inr_iff)
  from Cons.prems have "\<forall>(k, n) \<in> set nets. \<exists>s n'. map_of sdp k = Some s \<and> mload n s = Inr n'"
    by simp
  from Cons.IH [OF this] obtain nets' where "load_loop mload sdp nets = Inr nets'" ..
  then show ?case
    by (simp add: kn mem g l)
qed

lemma load_loop_restores:
  "\<forall>(k, n) \<in> set nets. map_of sdp k = Some (msd n) \<and>
      (\<exists>n'. mload n (msd n) = Inr n' \<and> call n' = call n) \<Longrightarrow>
   \<exists>nets'. load_loop mload sdp nets = Inr nets' \<and> keys nets' = keys nets \<and>
      list_all2 (\<lambda>a b. call (snd a) = call (snd b)) nets' nets"
proof (induction nets)
  case Nil
  then show ?case by (simp add: keys_def)
next
  case (Cons kn nets)
  obtain k n where kn: "kn = (k, n)" by (cases kn)
  from Cons.prems obtain n' where s: "map_of sdp k = Some (msd n)"
    and l: "mload n (msd n) = Inr n'" and c: "call n' = call n"
    by (auto simp: kn)
  from s have mem: "k \<in> set (keys sdp)"
    by (auto simp: keys_def dest: map_of_SomeD intro: rev_image_eqI)
  from s have g: "getitem sdp k = Inr (msd n)" by (simp add: getitem_Inr_iff)
  from Cons.prems have "\<forall>(k, n) \<in> set nets. map_of sdp k = Some (msd n) \<and>
      (\<exists>n'. mload n (msd n) = Inr n' \<and> call n' = call n)"
    by simp
  from Cons.IH [OF this] obtain nets' where "load_loop mload sdp nets = Inr nets'"
    and "keys nets' = keys nets"
    and "list_all2 (\<lambda>a b. call (snd a) = call (snd b)) nets' nets"
    by blast
  then show ?case
    by (simp add: kn mem g l c) (simp add: keys_def)
qed

lemma state_dict_eq:
  "distinct (keys (networks p)) \<Longrightarrow>
   state_dict msd p = [(''policies'', map (\<lambda>(k, n). (k, msd n)) (networks p))]"
  using foldl_setitem_distinct [of "[]" "networks p" msd]
  by (simp add: state_dict_def keys_def dict_of_def dict_setitem_def)

lemma map_of_saved:
  "distinct (keys nets) \<Longrightarrow> (k, n) \<in> set nets \<Longrightarrow>
   map_of (map (\<lambda>(k, n). (k, msd n)) nets) k = Some (msd n)"
  by (induction nets) (auto simp: keys_def intro: rev_image_eqI)

text \<open>
  Claim C7, as the code has it. \<open>load_state_dict\<close> reads the networks' states below the
  top-level key \<^verbatim>\<open>"policies"\<close>. When the supplied dictionary has no such key, nothing is
  loaded and nothing is raised. When it has, the call raises as soon as a registered key has
  no entry below \<^verbatim>\<open>"policies"\<close>; and when every registered key has an entry there that its
  network accepts, the call returns, whatever other entries the dictionary holds.
\<close>

theorem load_state_dict_missing_entry:
  "(''policies'' \<notin> set (keys sd) \<longrightarrow> load_state_dict mload p sd = Inr p)
   \<and> (\<forall>sdp k. getitem sd ''policies'' = Inr sdp \<and> k \<in> set (keys (networks p)) \<and>
               k \<notin> set (keys sdp) \<longrightarrow>
         (\<exists>e. load_state_dict mload p sd = Inl e))
   \<and> (\<forall>sdp. getitem sd ''policies'' = Inr sdp \<and>
             (\<forall>(k, n) \<in> set (networks p). \<exists>s n'. map_of sdp k = Some s \<and> mload n s = Inr n') \<longrightarrow>
         (\<exists>p'. load_state_dict mload p sd = Inr p'))"
proof (intro conjI allI impI)
  assume "''policies'' \<notin> set (keys sd)"
  then show "load_state_dict mload p sd = Inr p"
    by (simp add: load_state_dict_def)
next
  fix sdp k
  assume a: "getitem sd ''policies'' = Inr sdp \<and> k \<in> set (keys (networks p)) \<and>
             k \<notin> set (keys sdp)"
  then have mem: "''policies'' \<in> set (keys sd)"
    by (auto simp: getitem_Inr_iff keys_def dest: map_of_SomeD intro: rev_image_eqI)
  from a load_loop_missing [of k "networks p" sdp mload]
  obtain e where "load_loop mload sdp (networks p) = Inl e" by blast
  with a mem show "\<exists>e. load_state_dict mload p sd = Inl e"
    by (simp add: load_state_dict_def)
next
  fix sdp
  assume a: "getitem sd ''policies'' = Inr sdp \<and>
             (\<forall>(k, n) \<in> set (networks p). \<exists>s n'. map_of sdp k = Some s \<and> mload n s = Inr n')"
  then have mem: "''policies'' \<in> set (keys sd)"
    by (auto simp: getitem_Inr_iff keys_def dest: map_of_SomeD intro: rev_image_eqI)
  from a load_loop_present [of "networks p" sdp mload]
  obtain nets' where "load_loop mload sdp (networks p) = Inr nets'" by blast
  with a mem show "\<exists>p'. load_state_dict mload p sd = Inr p'"
    by (simp add: load_state_dict_def)
qed

theorem load_state_dict_missing_entry_witness:
  "load_state_dict example_module_load_state_dict example_policy [] = Inr example_policy
   \<and> load_state_dict example_module_load_state_dict example_policy
        [(''policies'', [(StepNet (IntKey 0), 1)])] = Inl AssertionError
   \<and> load_state_dict example_module_load_state_dict example_policy
        [(''policies'', [(ActorNet (ActorID (IntKey 1) 1), 3), (StepNet (IntKey 5), 9),
                         (StepNet (IntKey 0), 1), (ActorNet (ActorID (IntKey 1) 0), 2)])]
       = Inr (example_policy\<lparr>networks :=
                [(StepNet (IntKey 0), 1), (ActorNet (ActorID (IntKey 1) 0), 2),
                 (ActorNet (ActorID (IntKey 1) 1), 3)]\<rparr>)"
proof -
  have a: "load_state_dict example_module_load_state_dict example_policy [] = Inr example_policy"
    using load_state_dict_missing_entry [of "[]" example_module_load_state_dict example_policy]
    by (simp add: keys_def)
  have b: "load_state_dict example_module_load_state_dict example_policy
        [(''policies'', [(StepNet (IntKey 0), 1)])] = Inl AssertionError"
    using load_state_dict_missing_entry [of "[(''policies'', [(StepNet (IntKey 0), 1)])]"
        example_module_load_state_dict example_policy]
    by (simp add: load_state_dict_def keys_def getitem_def example_policy_def
        example_module_load_state_dict_def)
  have c: "load_state_dict example_module_load_state_dict example_policy
        [(''policies'', [(ActorNet (ActorID (IntKey 1) 1), 3), (StepNet (IntKey 5), 9),
                         (StepNet (IntKey 0), 1), (ActorNet (ActorID (IntKey 1) 0), 2)])]
       = Inr (example_policy\<lparr>networks :=
                [(StepNet (IntKey 0), 1), (ActorNet (ActorID (IntKey 1) 0), 2),
                 (ActorNet (ActorID (IntKey 1) 1), 3)]\<rparr>)"
    using load_state_dict_missing_entry [of
        "[(''policies'', [(ActorNet (ActorID (IntKey 1) 1), 3), (StepNet (IntKey 5), 9),
                         (StepNet (IntKey 0), 1), (ActorNet (ActorID (IntKey 1) 0), 2)])]"
        example_module_load_state_dict example_policy]
    by (simp add: load_state_dict_def keys_def getitem_def example_policy_def
        example_module_load_state_dict_def)
  from a b c show ?thesis by simp
qed

text \<open>
  Claim C7 as stated fails: the example policy has a network registered under step key 0,
  the supplied dictionary (the state of a critic) has no entry for it, and
  \<open>load_state_dict\<close> returns without raising and without loading anything.
\<close>

theorem load_state_dict_no_policies_counterexample:
  "StepNet (IntKey 0) \<in> set (keys (networks example_policy))
   \<and> ''policies'' \<notin> set (keys [(''critics'', [(StepNet (IntKey 0), 1)])])
   \<and> load_state_dict example_module_load_state_dict example_policy
        [(''critics'', [(StepNet (IntKey 0), 1)])] = Inr example_policy"
  by (simp add: load_state_dict_def keys_def example_policy_def)

text \<open>
  Claim C8. For a policy whose networks each accept their own saved state and then compute
  the same outputs as before (the contract of the external network class), \<open>state_dict\<close>
  is the dictionary with the single key \<^verbatim>\<open>"policies"\<close>, below which each network's state
  is stored under its registry key, and \<open>load_state_dict\<close> of it returns, keeps the registry
  keys, and leaves every network computing the outputs it computed before.
\<close>

theorem state_dict_round_trip:
  assumes "distinct (keys (networks p))"
    and "\<forall>(k, n) \<in> set (networks p). \<exists>n'. mload n (msd n) = Inr n' \<and> call n' = call n"
  shows "state_dict msd p = [(''policies'', map (\<lambda>(k, n). (k, msd n)) (networks p))]
     \<and> (\<exists>nets'. load_state_dict mload p (state_dict msd p) = Inr (p\<lparr>networks := nets'\<rparr>)
           \<and> keys nets' = keys (networks p)
           \<and> (\<forall>i < length (networks p). call (snd (nets' ! i)) = call (snd (networks p ! i))))"
proof -
  let ?sdp = "map (\<lambda>(k, n). (k, msd n)) (networks p)"
  have sd: "state_dict msd p = [(''policies'', ?sdp)]"
    by (rule state_dict_eq [OF assms(1)])
  have "\<forall>(k, n) \<in> set (networks p). map_of ?sdp k = Some (msd n) \<and>
      (\<exists>n'. mload n (msd n) = Inr n' \<and> call n' = call n)"
    using assms(2) map_of_saved [OF assms(1)] by fastforce
  from load_loop_restores [where msd = msd and mload = mload and call = call
      and nets = "networks p" and sdp = ?sdp, OF this]
  obtain nets' where l: "load_loop mload ?sdp (networks p) = Inr nets'"
    and k: "keys nets' = keys (networks p)"
    and c: "list_all2 (\<lambda>a b. call (snd a) = call (snd b)) nets' (networks p)"
    by blast
  have "load_state_dict mload p (state_dict msd p) = Inr (p\<lparr>networks := nets'\<rparr>)"
    unfolding sd by (simp add: load_state_dict_def keys_def getitem_def l)
  moreover from c have "\<forall>i < length (networks p).
      call (snd (nets' ! i)) = call (snd (networks p ! i))"
    by (simp add: list_all2_conv_all_nth)
  ultimately show ?thesis using sd k by blast
qed

theorem state_dict_round_trip_witness:
  "state_dict example_module_state_dict example_policy =
     [(''policies'', [(StepNet (IntKey 0), 10), (ActorNet (ActorID (IntKey 1) 0), 20),
                      (ActorNet (ActorID (IntKey 1) 1), 30)])]
   \<and> load_state_dict example_module_load_state_dict example_policy
        (state_dict example_module_state_dict example_policy) = Inr example_policy"
proof -
  have d: "distinct (keys (networks example_policy))"
    by (simp add: keys_def example_policy_def)
  have h: "\<forall>(k, n) \<in> set (networks example_policy).
     \<exists>n'. example_module_load_state_dict n (example_module_state_dict n) = Inr n'
          \<and> example_call n' = example_call n"
    by (simp add: example_policy_def example_module_load_state_dict_def
        example_module_state_dict_def)
  from state_dict_round_trip [where mload = example_module_load_state_dict
      and msd = example_module_state_dict and call = example_call and p = example_policy, OF d h]
  have sd: "state_dict example_module_state_dict example_policy =
     [(''policies'', map (\<lambda>(k, n). (k, example_module_state_dict n)) (networks example_policy))]"
    by blast
  have a: "state_dict example_module_state_dict example_policy =
     [(''policies'', [(StepNet (IntKey 0), 10), (ActorNet (ActorID (IntKey 1) 0), 20),
                      (ActorNet (ActorID (IntKey 1) 1), 30)])]"
    unfolding sd by (simp add: example_policy_def example_module_state_dict_def)
  have b: "load_state_dict example_module_load_state_dict example_policy
        (state_dict example_module_state_dict example_policy) = Inr example_policy"
    unfolding a
    by (simp add: load_state_dict_def keys_def getitem_def example_policy_def
        example_module_load_state_dict_def)
  from a b show ?thesis by (rule conjI)
qed

section \<open>The dummy structured core environment\<close>

text \<open>
  Claim C10. A fresh environment has \<open>current_agent = 0\<close>, and after any sequence of
  \<open>reset\<close> and \<open>step\<close> calls \<open>current_agent\<close> is 0 or 1. \<open>reset\<close> sets it to 0 and every
  \<open>step\<close> toggles it. A step taken at \<open>current_agent = 0\<close> returns reward 0 and leaves the
  context (and its env step) as it is; a step taken at \<open>current_agent = 1\<close> increments the
  env step and returns the aggregated reward. \<open>actor_id\<close> is the pair of 0 and
  \<open>current_agent\<close>.
\<close>

theorem dummy_env_current_agent:
  "current_agent (init ctx space) = 0
   \<and> current_agent (run increment_env_step summarize_reward sample (init ctx space) cs) \<in> {0, 1}
   \<and> current_agent (snd (reset sample env)) = 0
   \<and> (current_agent env \<in> {0, 1} \<longrightarrow>
        current_agent (snd (step increment_env_step summarize_reward sample env a))
          = 1 - current_agent env)
   \<and> (current_agent env = 0 \<longrightarrow>
        fst (snd (fst (step increment_env_step summarize_reward sample env a))) = 0
        \<and> env_context (snd (step increment_env_step summarize_reward sample env a))
            = env_context env)
   \<and> (current_agent env = 1 \<longrightarrow>
        fst (snd (fst (step increment_env_step summarize_reward sample env a)))
            = summarize_reward (increment_env_step (env_context env))
        \<and> env_context (snd (step increment_env_step summarize_reward sample env a))
            = increment_env_step (env_context env))
   \<and> env_actor_id env = (0, current_agent env)"
proof -
  have inv: "current_agent e \<in> {0, 1} \<Longrightarrow>
     current_agent (run increment_env_step summarize_reward sample e cs) \<in> {0, 1}" for e
  proof (induction cs arbitrary: e)
    case Nil
    then show ?case by simp
  next
    case (Cons c cs)
    show ?case
    proof (cases c)
      case Reset
      have "current_agent (snd (reset sample e)) \<in> {0, 1}"
        by (simp add: reset_def get_maze_state_def split: prod.splits)
      from Cons.IH [OF this] show ?thesis by (simp add: Reset)
    next
      case (Step a')
      have "current_agent (snd (step increment_env_step summarize_reward sample e a')) \<in> {0, 1}"
        by (simp add: step_def get_maze_state_def Let_def split: prod.splits)
      from Cons.IH [OF this] show ?thesis by (simp add: Step)
    qed
  qed
  have i0: "current_agent (init ctx space) = 0"
    by (simp add: init_def)
  then have r: "current_agent (run increment_env_step summarize_reward sample (init ctx space) cs)
      \<in> {0, 1}"
    by (intro inv) simp
  have rs: "current_agent (snd (reset sample env)) = 0"
    by (simp add: reset_def get_maze_state_def split: prod.splits)
  have st: "current_agent env \<in> {0, 1} \<longrightarrow>
        current_agent (snd (step increment_env_step summarize_reward sample env a))
          = 1 - current_agent env"
    by (auto simp: step_def get_maze_state_def Let_def split: prod.splits)
  have s0: "current_agent env = 0 \<longrightarrow>
        fst (snd (fst (step increment_env_step summarize_reward sample env a))) = 0
        \<and> env_context (snd (step increment_env_step summarize_reward sample env a))
            = env_context env"
    by (simp add: step_def get_maze_state_def Let_def split: prod.splits)
  have s1: "current_agent env = 1 \<longrightarrow>
        fst (snd (fst (step increment_env_step summarize_reward sample env a)))
            = summarize_reward (increment_env_step (env_context env))
        \<and> env_context (snd (step increment_env_step summarize_reward sample env a))
            = increment_env_step (env_context env)"
    by (simp add: step_def get_maze_state_def Let_def split: prod.splits)
  have ai: "env_actor_id env = (0, current_agent env)"
    by (simp add: env_actor_id_def)
  from i0 r rs st s0 s1 ai show ?thesis by blast
qed

theorem dummy_env_current_agent_witness:
  "step Suc example_summarize_reward example_sample (init 0 0) () =
     ((0, 0, False), \<lparr>env_context = 0, observation_space = 1, current_agent = 1\<rparr>)
   \<and> step Suc example_summarize_reward example_sample
       \<lparr>env_context = 0, observation_space = 1, current_agent = 1\<rparr> () =
     ((1, 10, False), \<lparr>env_context = 1, observation_space = 2, current_agent = 0\<rparr>)
   \<and> current_agent (run Suc example_summarize_reward example_sample (init 0 0)
        [Step (), Step (), Step (), Reset, Step ()]) = 1"
  using dummy_env_current_agent [where increment_env_step = Suc
      and summarize_reward = example_summarize_reward and sample = example_sample
      and ctx = 0 and space = 0 and a = "()" and env = "init 0 0"
      and cs = "[Step (), Step (), Step (), Reset, Step ()]"]
    dummy_env_current_agent [where increment_env_step = Suc
      and summarize_reward = example_summarize_reward and sample = example_sample
      and ctx = 0 and space = 0 and a = "()"
      and env = "\<lparr>env_context = 0, observation_space = 1, current_agent = 1\<rparr>"
      and cs = "[]"]
  by (simp add: step_def reset_def get_maze_state_def init_def example_sample_def
      example_summarize_reward_def)

end
